theory Spec2Isabelle
  imports Main "HOL-Library.AList"
begin

section \<open>JavaScript values used by the controller\<close>

text \<open>
  The controller of \<^verbatim>\<open>smain.ts\<close> computes with JavaScript numbers that come from
  \<^verbatim>\<open>Number.parseInt\<close> and from the literal \<^verbatim>\<open>7000\<close>: integers, or \<^verbatim>\<open>NaN\<close> when an
  attribute does not start with a number. A number is modelled as \<open>NaN\<close> or an exact
  integer; a double is exact up to \<open>2 ^ 53\<close> and rounds beyond, far above any cost that
  fits the budget. Arithmetic with \<open>NaN\<close> gives \<open>NaN\<close>; every comparison with \<open>NaN\<close>
  is false.
\<close>

datatype jsnum = NaN | Num int

fun jadd :: "jsnum \<Rightarrow> jsnum \<Rightarrow> jsnum" where
  "jadd (Num a) (Num b) = Num (a + b)"
| "jadd _ _ = NaN"

fun jsub :: "jsnum \<Rightarrow> jsnum \<Rightarrow> jsnum" where
  "jsub (Num a) (Num b) = Num (a - b)"
| "jsub _ _ = NaN"

fun jle :: "jsnum \<Rightarrow> jsnum \<Rightarrow> bool" where
  "jle (Num a) (Num b) = (a \<le> b)"
| "jle _ _ = False"

fun jlt :: "jsnum \<Rightarrow> jsnum \<Rightarrow> bool" where
  "jlt (Num a) (Num b) = (a < b)"
| "jlt _ _ = False"

text \<open>
  A JavaScript string is a sequence of UTF-16 code units, each given by its number;
  \<open>js\<close> gives the string of an ASCII literal.
\<close>

type_synonym jsstring = "int list"

definition js :: "string \<Rightarrow> jsstring" where
  "js s = map of_char s"

text \<open>
  \<^verbatim>\<open>Number.parseInt(s)\<close> with no radix: leading white space and line terminators are
  dropped (tab, the four line terminators, vertical tab, form feed, the byte order
  mark and the space separators of Unicode), one sign is read, a \<^verbatim>\<open>0x\<close> or \<^verbatim>\<open>0X\<close>
  prefix selects radix 16, and the longest run of digits of that radix is the value;
  no digit at all gives \<open>NaN\<close>. An attribute that is absent reads as \<^verbatim>\<open>undefined\<close>,
  whose string form starts with no digit.
\<close>

definition isWhiteSpace :: "int \<Rightarrow> bool" where
  "isWhiteSpace u =
     (u \<in> set [0x0009, 0x000A, 0x000B, 0x000C, 0x000D, 0x0020, 0x00A0, 0x1680,
                0x2000, 0x2001, 0x2002, 0x2003, 0x2004, 0x2005, 0x2006, 0x2007,
                0x2008, 0x2009, 0x200A, 0x2028, 0x2029, 0x202F, 0x205F, 0x3000, 0xFEFF])"

definition digitValue :: "int \<Rightarrow> int option" where
  "digitValue u =
     (if 48 \<le> u \<and> u \<le> 57 then Some (u - 48)
      else if 97 \<le> u \<and> u \<le> 122 then Some (u - 87)
      else if 65 \<le> u \<and> u \<le> 90 then Some (u - 55)
      else None)"

definition isDigit :: "int \<Rightarrow> int \<Rightarrow> bool" where
  "isDigit radix u = (case digitValue u of None \<Rightarrow> False | Some d \<Rightarrow> d < radix)"

definition digitsValue :: "int \<Rightarrow> jsstring \<Rightarrow> int" where
  "digitsValue radix ds =
     foldl (\<lambda>acc u. acc * radix + (case digitValue u of None \<Rightarrow> 0 | Some d \<Rightarrow> d)) 0 ds"

definition parseInt :: "jsstring option \<Rightarrow> jsnum" where
  "parseInt attr =
     (case attr of
        None \<Rightarrow> NaN
      | Some s \<Rightarrow>
          (let s1 = dropWhile isWhiteSpace s;
               negative = (take 1 s1 = js ''-'');
               s2 = (if take 1 s1 = js ''-'' \<or> take 1 s1 = js ''+'' then drop 1 s1 else s1);
               hex = (take 2 s2 = js ''0x'' \<or> take 2 s2 = js ''0X'');
               radix = (if hex then 16 else 10);
               s3 = (if hex then drop 2 s2 else s2);
               ds = takeWhile (isDigit radix) s3
           in if ds = [] then NaN
              else Num ((if negative then - 1 else 1) * digitsValue radix ds)))"

section \<open>Data model\<close>

text \<open>
  A key of the catalogue and of the selection is the value of a card's
  \<^verbatim>\<open>data-id\<close> attribute: a string, or \<^verbatim>\<open>undefined\<close> (\<open>None\<close>) when the attribute is
  absent, which a JavaScript \<^verbatim>\<open>Map\<close> and \<^verbatim>\<open>Set\<close> accept as a key like any other.
\<close>

type_synonym key = "jsstring option"

record product =
  id_of :: key
  points :: jsnum
  selected :: bool

text \<open>
  The rendering surface, as far as the controller reads or writes state in it: the
  product cards with their two data attributes, the confirmation button with its
  \<^verbatim>\<open>disabled\<close> flag and its label, and the element showing the remaining points.
  The label is kept as the template that was written, with the values spliced in.
\<close>

record card =
  data_id :: "jsstring option"
  data_points :: "jsstring option"

datatype label =
    Markup string
  | ConfirmLabel
  | SummaryLabel nat jsnum
  | ProcessingLabel

record button =
  disabled :: bool
  innerHTML :: label

record points_value =
  textContent :: jsnum
  low_points :: bool

record document =
  product_cards :: "card list"
  confirmButton_el :: "button option"
  points_value_el :: "points_value option"

datatype error = TypeError | SyntaxError

datatype completion = Normal | Thrown error

text \<open>
  The fields of \<^verbatim>\<open>ExitoPointsExchange\<close>, with the two elements of the page the
  controller writes to. \<open>selectedProducts\<close> is a \<^verbatim>\<open>Set\<close>: its members in insertion
  order, without repetition. \<open>products\<close> is a \<^verbatim>\<open>Map\<close>: its entries in insertion order.
  \<open>confirmButton\<close> is \<open>None\<close> while the field is \<^verbatim>\<open>undefined\<close> or \<^verbatim>\<open>null\<close>.
  \<open>confirmListener\<close> records whether line 61 attached the click listener, and
  \<open>pendingExchanges\<close> counts the callbacks scheduled by \<^verbatim>\<open>setTimeout\<close> in
  \<^verbatim>\<open>processExchange\<close> that have not run yet.
\<close>

record state =
  availablePoints :: jsnum
  selectedProducts :: "key list"
  products :: "(key \<times> product) list"
  confirmButton :: "button option"
  confirmListener :: bool
  pointsValue :: "points_value option"
  pendingExchanges :: nat

text \<open>
  A method runs to its end or throws; a throw keeps every mutation made before it.
\<close>

definition andThen :: "completion \<times> state \<Rightarrow> (state \<Rightarrow> completion \<times> state) \<Rightarrow> completion \<times> state" where
  "andThen r f = (case r of (Normal, st) \<Rightarrow> f st | (Thrown e, st) \<Rightarrow> (Thrown e, st))"

definition set_add :: "key \<Rightarrow> key list \<Rightarrow> key list" where
  "set_add k ks = (if k \<in> set ks then ks else ks @ [k])"

definition set_delete :: "key \<Rightarrow> key list \<Rightarrow> key list" where
  "set_delete k ks = removeAll k ks"

section \<open>The controller\<close>

text \<open>Field initialisers, lines 9 to 12.\<close>

definition new_controller :: "document \<Rightarrow> state" where
  "new_controller doc =
     \<lparr>availablePoints = Num 7000, selectedProducts = [], products = [],
      confirmButton = None, confirmListener = False,
      pointsValue = points_value_el doc, pendingExchanges = 0\<rparr>"

text \<open>\<^verbatim>\<open>initProducts\<close>, lines 25 to 38: one \<^verbatim>\<open>Map.set\<close> for every card.\<close>

definition initProducts :: "card list \<Rightarrow> state \<Rightarrow> state" where
  "initProducts cards st =
     fold (\<lambda>c s. s\<lparr>products :=
             AList.update (data_id c)
               \<lparr>id_of = data_id c, points = parseInt (data_points c), selected = False\<rparr>
               (products s)\<rparr>)
          cards st"

text \<open>
  \<^verbatim>\<open>initEventListeners\<close>, lines 40 to 69. The card listeners are the \<open>Toggle\<close>
  events below. The click listener of the button is attached through \<^verbatim>\<open>?.\<close>, that is
  only when the field holds an element at that moment.
\<close>

definition initEventListeners :: "state \<Rightarrow> state" where
  "initEventListeners st = st\<lparr>confirmListener := (confirmButton st \<noteq> None)\<rparr>"

text \<open>\<^verbatim>\<open>calculateTotalPoints\<close>, lines 99 to 108.\<close>

definition calculateTotalPoints :: "state \<Rightarrow> jsnum" where
  "calculateTotalPoints st =
     fold (\<lambda>productId total.
             case map_of (products st) productId of
               Some product \<Rightarrow> jadd total (points product)
             | None \<Rightarrow> total)
          (selectedProducts st) (Num 0)"

text \<open>
  \<^verbatim>\<open>updateConfirmButton\<close>, lines 110 to 123. Writing \<^verbatim>\<open>disabled\<close> on a field that
  holds no element throws a \<^verbatim>\<open>TypeError\<close>.
\<close>

definition updateConfirmButton :: "state \<Rightarrow> completion \<times> state" where
  "updateConfirmButton st =
     (let hasSelection = (length (selectedProducts st) > 0) in
      case confirmButton st of
        None \<Rightarrow> (Thrown TypeError, st)
      | Some b \<Rightarrow>
          (Normal, st\<lparr>confirmButton := Some (b\<lparr>
             disabled := \<not> hasSelection,
             innerHTML := (if hasSelection
                           then SummaryLabel (length (selectedProducts st)) (calculateTotalPoints st)
                           else ConfirmLabel)\<rparr>)\<rparr>))"

text \<open>
  \<^verbatim>\<open>updatePointsDisplay\<close>, lines 125 to 140. \<open>remaining\<close> is the local of lines 126
  and 127, the number the display shows.
\<close>

definition remaining :: "state \<Rightarrow> jsnum" where
  "remaining st = (let totalSelected = calculateTotalPoints st in jsub (availablePoints st) totalSelected)"

definition updatePointsDisplay :: "state \<Rightarrow> state" where
  "updatePointsDisplay st =
     (case pointsValue st of
        None \<Rightarrow> st
      | Some pv \<Rightarrow> st\<lparr>pointsValue :=
          Some \<lparr>textContent = remaining st, low_points = jlt (remaining st) (Num 1000)\<rparr>\<rparr>)"

text \<open>Lines 95 and 96, and again 186 and 187: refresh the button, then the display.\<close>

definition refresh :: "state \<Rightarrow> completion \<times> state" where
  "refresh st = andThen (updateConfirmButton st) (\<lambda>s. (Normal, updatePointsDisplay s))"

text \<open>
  \<^verbatim>\<open>toggleProductSelection\<close>, lines 71 to 97. The element argument only receives
  visual writes (class and style), which the controller never reads back.
\<close>

definition toggleProductSelection :: "key \<Rightarrow> state \<Rightarrow> completion \<times> state" where
  "toggleProductSelection productId st =
     (case map_of (products st) productId of
        None \<Rightarrow> (Normal, st)
      | Some product \<Rightarrow>
          if selected product then
            (let s1 = st\<lparr>selectedProducts := set_delete productId (selectedProducts st)\<rparr>;
                 s2 = s1\<lparr>products := AList.update productId (product\<lparr>selected := False\<rparr>) (products s1)\<rparr>
             in refresh s2)
          else
            (let totalSelectedPoints = calculateTotalPoints st in
             if jle (jadd totalSelectedPoints (points product)) (availablePoints st) then
               (let s1 = st\<lparr>selectedProducts := set_add productId (selectedProducts st)\<rparr>;
                    s2 = s1\<lparr>products := AList.update productId (product\<lparr>selected := True\<rparr>) (products s1)\<rparr>
                in refresh s2)
             else refresh st))"

text \<open>
  Every controller state that one call of \<^verbatim>\<open>toggleProductSelection\<close> passes through,
  in order: the state at entry, the state after each assignment, the state after each
  of the two refreshes.
\<close>

definition refresh_trace :: "state \<Rightarrow> state list" where
  "refresh_trace st =
     (case updateConfirmButton st of
        (Normal, s) \<Rightarrow> [s, updatePointsDisplay s]
      | (Thrown e, s) \<Rightarrow> [s])"

definition toggleProductSelection_trace :: "key \<Rightarrow> state \<Rightarrow> state list" where
  "toggleProductSelection_trace productId st =
     (case map_of (products st) productId of
        None \<Rightarrow> [st]
      | Some product \<Rightarrow>
          if selected product then
            (let s1 = st\<lparr>selectedProducts := set_delete productId (selectedProducts st)\<rparr>;
                 s2 = s1\<lparr>products := AList.update productId (product\<lparr>selected := False\<rparr>) (products s1)\<rparr>
             in [st, s1, s2] @ refresh_trace s2)
          else
            (let totalSelectedPoints = calculateTotalPoints st in
             if jle (jadd totalSelectedPoints (points product)) (availablePoints st) then
               (let s1 = st\<lparr>selectedProducts := set_add productId (selectedProducts st)\<rparr>;
                    s2 = s1\<lparr>products := AList.update productId (product\<lparr>selected := True\<rparr>) (products s1)\<rparr>
                in [st, s1, s2] @ refresh_trace s2)
             else [st] @ refresh_trace st))"

text \<open>
  \<^verbatim>\<open>processExchange\<close>, lines 166 to 170: the synchronous part, which ends by
  scheduling the callback.
\<close>

definition processExchange :: "state \<Rightarrow> completion \<times> state" where
  "processExchange st =
     (case confirmButton st of
        None \<Rightarrow> (Thrown TypeError, st)
      | Some b \<Rightarrow>
          (Normal, st\<lparr>confirmButton := Some (b\<lparr>innerHTML := ProcessingLabel, disabled := True\<rparr>),
                      pendingExchanges := Suc (pendingExchanges st)\<rparr>))"

text \<open>
  The callback of \<^verbatim>\<open>processExchange\<close>, lines 171 to 188, in the order of its
  statements: clear the set, clear the flags, subtract the total, refresh.
\<close>

definition processExchange_callback :: "state \<Rightarrow> completion \<times> state" where
  "processExchange_callback st =
     (let s1 = st\<lparr>selectedProducts := []\<rparr>;
          s2 = s1\<lparr>products := map (\<lambda>(k, product). (k, product\<lparr>selected := False\<rparr>)) (products s1)\<rparr>;
          s3 = s2\<lparr>availablePoints := jsub (availablePoints s2) (calculateTotalPoints s2)\<rparr>
      in refresh s3)"

text \<open>
  \<^verbatim>\<open>handleConfirmSelection\<close>, lines 142 to 164. The summary it builds is only shown.
  What the page and the user contribute is the argument: \<^verbatim>\<open>querySelector\<close> (line 148)
  throws when a selected key does not make a valid selector, and otherwise the
  \<^verbatim>\<open>confirm\<close> dialog (line 161) is declined or accepted.
\<close>

datatype dialog = InvalidSelector | Declined | Accepted

definition handleConfirmSelection :: "dialog \<Rightarrow> state \<Rightarrow> completion \<times> state" where
  "handleConfirmSelection answer st =
     (case answer of
        InvalidSelector \<Rightarrow> (Thrown SyntaxError, st)
      | Declined \<Rightarrow> (Normal, st)
      | Accepted \<Rightarrow> processExchange st)"

text \<open>The click listener of the button, lines 61 to 65, when it was attached.\<close>

definition confirmButton_click :: "dialog \<Rightarrow> state \<Rightarrow> completion \<times> state" where
  "confirmButton_click answer st =
     (if \<not> confirmListener st then (Normal, st)
      else case confirmButton st of
             None \<Rightarrow> (Thrown TypeError, st)
           | Some b \<Rightarrow> if \<not> disabled b then handleConfirmSelection answer st else (Normal, st))"

text \<open>\<^verbatim>\<open>init\<close>, lines 18 to 23, called by the constructor.\<close>

definition init :: "document \<Rightarrow> completion \<times> state" where
  "init doc =
     (let s1 = initProducts (product_cards doc) (new_controller doc);
          s2 = initEventListeners s1;
          s3 = s2\<lparr>confirmButton := confirmButton_el doc\<rparr>
      in updateConfirmButton s3)"

section \<open>Events\<close>

text \<open>
  What can happen to a controller after construction: a click on a card
  (\<open>Toggle\<close>, with the card's key), a click on the button (\<open>ConfirmClick\<close>), a
  call of \<^verbatim>\<open>handleConfirmSelection\<close> (\<open>Confirm\<close>), each with the outcome of the
  dialog, and the firing of a scheduled callback (\<open>ExchangeTimeout\<close>). An exception thrown in a handler ends that handler
  only; the state it reached stays.
\<close>

datatype event = Toggle key | ConfirmClick dialog | Confirm dialog | ExchangeTimeout

fun step :: "event \<Rightarrow> state \<Rightarrow> state" where
  "step (Toggle k) st = snd (toggleProductSelection k st)"
| "step (ConfirmClick answer) st = snd (confirmButton_click answer st)"
| "step (Confirm answer) st = snd (handleConfirmSelection answer st)"
| "step ExchangeTimeout st =
     (if pendingExchanges st = 0 then st
      else snd (processExchange_callback (st\<lparr>pendingExchanges := pendingExchanges st - 1\<rparr>)))"

definition run :: "event list \<Rightarrow> state \<Rightarrow> state" where
  "run es st = fold step es st"

section \<open>Pages and predicates used in the statements\<close>

text \<open>
  The data model of the specification: the cost of every product of a catalogue is a
  non-negative integer.
\<close>

definition nonneg_costs :: "(key \<times> product) list \<Rightarrow> bool" where
  "nonneg_costs ps = list_all (\<lambda>(k, p). case points p of NaN \<Rightarrow> False | Num n \<Rightarrow> 0 \<le> n) ps"

text \<open>
  The sum of the costs of the selected products, written as a sum of integers and
  without the controller's own \<^verbatim>\<open>calculateTotalPoints\<close>: \<open>selection_cost\<close> adds the
  cost of the product of every member of the selection, \<open>flagged_cost\<close> adds the cost
  of every product of the catalogue whose flag is set.
\<close>

definition product_cost :: "product \<Rightarrow> int" where
  "product_cost p = (case points p of NaN \<Rightarrow> 0 | Num n \<Rightarrow> n)"

definition cost :: "(key \<times> product) list \<Rightarrow> key \<Rightarrow> int" where
  "cost ps k = (case map_of ps k of None \<Rightarrow> 0 | Some p \<Rightarrow> product_cost p)"

definition selection_cost :: "state \<Rightarrow> int" where
  "selection_cost st = sum_list (map (cost (products st)) (selectedProducts st))"

definition flagged_cost :: "state \<Rightarrow> int" where
  "flagged_cost st =
     sum_list (map (\<lambda>(k, p). if selected p then product_cost p else 0) (products st))"

text \<open>
  The selection and the flags agree, every product sits under its own identifier, the
  selection and the keys of the catalogue have no repetition, and the budget is the
  initial one.
\<close>

definition wf :: "state \<Rightarrow> bool" where
  "wf st =
     ((\<forall>k. (k \<in> set (selectedProducts st)) = (\<exists>p. map_of (products st) k = Some p \<and> selected p))
      \<and> (\<forall>k p. map_of (products st) k = Some p \<longrightarrow> id_of p = k)
      \<and> distinct (selectedProducts st)
      \<and> distinct (map fst (products st))
      \<and> availablePoints st = Num 7000)"

text \<open>
  No product has a negative cost, every selected key is a product with a numeric cost,
  and the total of the selection is within the budget.
\<close>

definition budget_ok :: "state \<Rightarrow> bool" where
  "budget_ok st =
     ((\<forall>k p. map_of (products st) k = Some p \<longrightarrow> \<not> jlt (points p) (Num 0))
      \<and> (\<forall>k \<in> set (selectedProducts st). \<exists>p n. map_of (products st) k = Some p \<and> points p = Num n)
      \<and> jle (calculateTotalPoints st) (availablePoints st))"

text \<open>Pages for the concrete runs.\<close>

definition a_button :: button where
  "a_button = \<lparr>disabled = False, innerHTML = Markup ''Confirmar''\<rparr>"

definition a_display :: points_value where
  "a_display = \<lparr>textContent = Num 7000, low_points = False\<rparr>"

definition page_AB :: document where
  "page_AB =
     \<lparr>product_cards =
        [\<lparr>data_id = Some (js ''A''), data_points = Some (js ''3000'')\<rparr>,
         \<lparr>data_id = Some (js ''B''), data_points = Some (js ''5000'')\<rparr>],
      confirmButton_el = Some a_button, points_value_el = Some a_display\<rparr>"

definition page_two :: document where
  "page_two =
     \<lparr>product_cards =
        [\<lparr>data_id = Some (js ''A''), data_points = Some (js ''3000'')\<rparr>,
         \<lparr>data_id = Some (js ''B''), data_points = Some (js ''2000'')\<rparr>],
      confirmButton_el = Some a_button, points_value_el = Some a_display\<rparr>"

definition page_no_button :: document where
  "page_no_button =
     \<lparr>product_cards = [\<lparr>data_id = Some (js ''A''), data_points = Some (js ''3000'')\<rparr>],
      confirmButton_el = None, points_value_el = Some a_display\<rparr>"

definition card_without_id :: card where
  "card_without_id = \<lparr>data_id = None, data_points = Some (js ''3000'')\<rparr>"

definition card_without_cost :: card where
  "card_without_cost = \<lparr>data_id = Some (js ''B''), data_points = None\<rparr>"

definition page_malformed :: document where
  "page_malformed =
     \<lparr>product_cards = [card_without_id, card_without_cost],
      confirmButton_el = Some a_button, points_value_el = Some a_display\<rparr>"

definition page_negative :: document where
  "page_negative =
     \<lparr>product_cards =
        [\<lparr>data_id = Some (js ''A''), data_points = Some (js ''5000'')\<rparr>,
         \<lparr>data_id = Some (js ''N''), data_points = Some (js ''-3000'')\<rparr>,
         \<lparr>data_id = Some (js ''B''), data_points = Some (js ''5000'')\<rparr>],
      confirmButton_el = Some a_button, points_value_el = Some a_display\<rparr>"

section \<open>Auxiliary facts\<close>

subsection \<open>What a refresh leaves alone\<close>

lemma refresh_core:
  "selectedProducts (snd (refresh st)) = selectedProducts st"
  "products (snd (refresh st)) = products st"
  "availablePoints (snd (refresh st)) = availablePoints st"
  "pendingExchanges (snd (refresh st)) = pendingExchanges st"
  "confirmListener (snd (refresh st)) = confirmListener st"
  by (auto simp: refresh_def andThen_def updateConfirmButton_def updatePointsDisplay_def Let_def
           split: option.splits)

lemma total_cong:
  "selectedProducts s = selectedProducts t \<Longrightarrow> products s = products t \<Longrightarrow>
   calculateTotalPoints s = calculateTotalPoints t"
  by (simp add: calculateTotalPoints_def)

lemma wf_cong:
  "selectedProducts s = selectedProducts t \<Longrightarrow> products s = products t \<Longrightarrow>
   availablePoints s = availablePoints t \<Longrightarrow> wf s = wf t"
  by (simp add: wf_def)

lemma budget_ok_cong:
  "selectedProducts s = selectedProducts t \<Longrightarrow> products s = products t \<Longrightarrow>
   availablePoints s = availablePoints t \<Longrightarrow> budget_ok s = budget_ok t"
  by (simp add: budget_ok_def calculateTotalPoints_def)

lemma total_refresh: "calculateTotalPoints (snd (refresh st)) = calculateTotalPoints st"
  by (rule total_cong) (simp_all add: refresh_core)

lemma wf_refresh: "wf (snd (refresh st)) = wf st"
  by (rule wf_cong) (simp_all add: refresh_core)

lemma budget_ok_refresh: "budget_ok (snd (refresh st)) = budget_ok st"
  by (rule budget_ok_cong) (simp_all add: refresh_core)

subsection \<open>The catalogue after initialisation\<close>

lemma initProducts_snoc:
  "initProducts (cs @ [c]) st =
     (initProducts cs st)\<lparr>products :=
        AList.update (data_id c)
          \<lparr>id_of = data_id c, points = parseInt (data_points c), selected = False\<rparr>
          (products (initProducts cs st))\<rparr>"
  by (simp add: initProducts_def)

lemma initProducts_products_only:
  "initProducts cs st =
     st\<lparr>products :=
        fold (\<lambda>c ps. AList.update (data_id c)
                \<lparr>id_of = data_id c, points = parseInt (data_points c), selected = False\<rparr> ps)
             cs (products st)\<rparr>"
  unfolding initProducts_def by (induction cs arbitrary: st) simp_all

lemma initProducts_other:
  "selectedProducts (initProducts cs st) = selectedProducts st"
  "availablePoints (initProducts cs st) = availablePoints st"
  "confirmButton (initProducts cs st) = confirmButton st"
  "pendingExchanges (initProducts cs st) = pendingExchanges st"
  "pointsValue (initProducts cs st) = pointsValue st"
  "confirmListener (initProducts cs st) = confirmListener st"
  by (simp_all add: initProducts_products_only)

lemma initProducts_lookup:
  "map_of (products (initProducts cs st)) k = Some p \<Longrightarrow>
     map_of (products st) k = Some p \<or>
     (\<exists>c \<in> set cs. k = data_id c \<and>
        p = \<lparr>id_of = data_id c, points = parseInt (data_points c), selected = False\<rparr>)"
proof (induction cs arbitrary: p rule: rev_induct)
  case Nil
  then show ?case by (simp add: initProducts_def)
next
  case (snoc c cs)
  show ?case
  proof (cases "k = data_id c")
    case True
    with snoc.prems show ?thesis
      by (auto simp: initProducts_snoc update_conv')
  next
    case False
    with snoc.prems have "map_of (products (initProducts cs st)) k = Some p"
      by (simp add: initProducts_snoc update_conv')
    from snoc.IH [OF this] show ?thesis by auto
  qed
qed

lemma initProducts_last:
  "c \<in> set cs \<Longrightarrow>
     map_of (products (initProducts cs st)) (data_id c) =
       Some \<lparr>id_of = data_id c,
             points = parseInt (data_points (last (filter (\<lambda>c'. data_id c' = data_id c) cs))),
             selected = False\<rparr>"
proof (induction cs rule: rev_induct)
  case Nil
  then show ?case by simp
next
  case (snoc x cs)
  show ?case
  proof (cases "data_id x = data_id c")
    case True
    then show ?thesis
      by (simp add: initProducts_snoc update_conv')
  next
    case False
    with snoc.prems have "c \<in> set cs" by auto
    from snoc.IH [OF this] False show ?thesis
      by (simp add: initProducts_snoc update_conv')
  qed
qed

lemma init_core:
  "selectedProducts (snd (init doc)) = []"
  "availablePoints (snd (init doc)) = Num 7000"
  "products (snd (init doc)) = products (initProducts (product_cards doc) (new_controller doc))"
  "pendingExchanges (snd (init doc)) = 0"
  "confirmListener (snd (init doc)) = False"
  "confirmButton (snd (init doc)) = None \<longleftrightarrow> confirmButton_el doc = None"
  by (auto simp: init_def updateConfirmButton_def initEventListeners_def initProducts_other
        new_controller_def Let_def split: option.splits)

lemma init_completion: "fst (init doc) = Normal \<longleftrightarrow> confirmButton_el doc \<noteq> None"
  by (auto simp: init_def updateConfirmButton_def Let_def split: option.splits)

lemma init_lookup:
  "map_of (products (snd (init doc))) k = Some p \<Longrightarrow>
     \<exists>c \<in> set (product_cards doc). k = data_id c \<and>
        p = \<lparr>id_of = data_id c, points = parseInt (data_points c), selected = False\<rparr>"
  using initProducts_lookup [of "product_cards doc" "new_controller doc" k p]
  by (simp add: init_core) (simp add: new_controller_def)

lemma initProducts_distinct:
  "distinct (map fst (products st)) \<Longrightarrow> distinct (map fst (products (initProducts cs st)))"
  by (induction cs rule: rev_induct) (simp_all add: initProducts_snoc distinct_update, simp add: initProducts_def)

lemma init_distinct: "distinct (map fst (products (snd (init doc))))"
  using initProducts_distinct [of "new_controller doc" "product_cards doc"]
  by (simp add: init_core) (simp add: new_controller_def)

lemma wf_init: "wf (snd (init doc))"
  unfolding wf_def using init_lookup [of doc] init_distinct [of doc]
  by (fastforce simp: init_core)

lemma nonneg_costs_lookup:
  assumes "nonneg_costs ps" and "map_of ps k = Some p"
  shows "\<exists>n. points p = Num n \<and> 0 \<le> n"
proof -
  from assms(2) have "(k, p) \<in> set ps" by (rule map_of_SomeD)
  with assms(1) have "case points p of NaN \<Rightarrow> False | Num n \<Rightarrow> 0 \<le> n"
    by (auto simp: nonneg_costs_def list_all_iff)
  then show ?thesis by (cases "points p") simp_all
qed

lemma budget_ok_init:
  assumes "nonneg_costs (products (snd (init doc)))"
  shows "budget_ok (snd (init doc))"
proof -
  have "\<not> jlt (points p) (Num 0)" if "map_of (products (snd (init doc))) k = Some p" for k p
    using nonneg_costs_lookup [OF assms that] by auto
  then show ?thesis
    by (simp add: budget_ok_def init_core(1,2) calculateTotalPoints_def)
qed

subsection \<open>The total of the selection\<close>

lemma total_fold_num:
  "\<forall>k \<in> set ks. \<exists>p n. map_of ps k = Some p \<and> points p = Num n \<Longrightarrow>
   fold (\<lambda>productId total.
           case map_of ps productId of
             Some product \<Rightarrow> jadd total (points product)
           | None \<Rightarrow> total) ks (Num a)
     = Num (a + sum_list (map (cost ps) ks))"
proof (induction ks arbitrary: a)
  case Nil
  then show ?case by simp
next
  case (Cons k ks)
  from Cons.prems obtain p n where p: "map_of ps k = Some p" "points p = Num n"
    by auto
  from Cons.prems have rest: "\<forall>k \<in> set ks. \<exists>p n. map_of ps k = Some p \<and> points p = Num n"
    by simp
  from p have "cost ps k = n" by (simp add: cost_def product_cost_def)
  with p Cons.IH [OF rest, of "a + n"] show ?case by (simp add: add.assoc)
qed

lemma total_num:
  "budget_ok st \<Longrightarrow>
   calculateTotalPoints st = Num (sum_list (map (cost (products st)) (selectedProducts st)))"
  unfolding budget_ok_def calculateTotalPoints_def
  using total_fold_num [of "selectedProducts st" "products st" 0] by simp

lemma cost_nonneg:
  "\<forall>k p. map_of ps k = Some p \<longrightarrow> \<not> jlt (points p) (Num 0) \<Longrightarrow> 0 \<le> cost ps k"
proof -
  assume a: "\<forall>k p. map_of ps k = Some p \<longrightarrow> \<not> jlt (points p) (Num 0)"
  show ?thesis
  proof (cases "map_of ps k")
    case None
    then show ?thesis by (simp add: cost_def)
  next
    case (Some p)
    with a have "\<not> jlt (points p) (Num 0)" by blast
    with Some show ?thesis by (cases "points p") (simp_all add: cost_def product_cost_def)
  qed
qed

lemma sum_removeAll_le:
  "\<forall>x \<in> set xs. (0::int) \<le> f x \<Longrightarrow> sum_list (map f (removeAll k xs)) \<le> sum_list (map f xs)"
  by (induction xs) auto

lemma total_flag:
  "map_of (products st) k = Some p \<Longrightarrow>
   calculateTotalPoints (st\<lparr>products := AList.update k (p\<lparr>selected := b\<rparr>) (products st)\<rparr>)
     = calculateTotalPoints st"
proof -
  assume p: "map_of (products st) k = Some p"
  have "(\<lambda>productId total.
           case map_of (AList.update k (p\<lparr>selected := b\<rparr>) (products st)) productId of
             Some product \<Rightarrow> jadd total (points product) | None \<Rightarrow> total)
      = (\<lambda>productId total.
           case map_of (products st) productId of
             Some product \<Rightarrow> jadd total (points product) | None \<Rightarrow> total)"
    using p by (auto simp: fun_eq_iff update_conv')
  then show ?thesis by (simp add: calculateTotalPoints_def)
qed

lemma budget_delete:
  assumes "budget_ok st"
  shows "budget_ok (st\<lparr>selectedProducts := set_delete k (selectedProducts st)\<rparr>)"
proof -
  let ?t = "st\<lparr>selectedProducts := set_delete k (selectedProducts st)\<rparr>"
  from assms have costs: "\<forall>k p. map_of (products st) k = Some p \<longrightarrow> \<not> jlt (points p) (Num 0)"
    and nums: "\<forall>k \<in> set (selectedProducts st). \<exists>p n. map_of (products st) k = Some p \<and> points p = Num n"
    and le: "jle (calculateTotalPoints st) (availablePoints st)"
    by (simp_all add: budget_ok_def)
  have nums': "\<forall>k \<in> set (selectedProducts ?t). \<exists>p n. map_of (products ?t) k = Some p \<and> points p = Num n"
    using nums by (simp add: set_delete_def)
  have part: "(\<forall>k p. map_of (products ?t) k = Some p \<longrightarrow> \<not> jlt (points p) (Num 0))
      \<and> (\<forall>k \<in> set (selectedProducts ?t). \<exists>p n. map_of (products ?t) k = Some p \<and> points p = Num n)"
    using costs nums' by simp
  have tot: "calculateTotalPoints ?t
      = Num (sum_list (map (cost (products st)) (removeAll k (selectedProducts st))))"
    unfolding calculateTotalPoints_def
    using total_fold_num [of "selectedProducts ?t" "products st" 0] nums'
    by (simp add: set_delete_def)
  have "sum_list (map (cost (products st)) (removeAll k (selectedProducts st)))
      \<le> sum_list (map (cost (products st)) (selectedProducts st))"
    by (rule sum_removeAll_le) (simp add: cost_nonneg [OF costs])
  with le total_num [OF assms] tot have "jle (calculateTotalPoints ?t) (availablePoints ?t)"
    by (cases "availablePoints st") simp_all
  with part show ?thesis unfolding budget_ok_def by blast
qed

lemma budget_flag:
  assumes ok: "budget_ok st" and p: "map_of (products st) k = Some p"
  shows "budget_ok (st\<lparr>products := AList.update k (p\<lparr>selected := b\<rparr>) (products st)\<rparr>)"
proof -
  let ?ps = "AList.update k (p\<lparr>selected := b\<rparr>) (products st)"
  have c1: "\<not> jlt (points q) (Num 0)" if "map_of ?ps k' = Some q" for k' q
  proof (cases "k' = k")
    case True
    with that have "points q = points p" by (auto simp: update_conv')
    with ok p show ?thesis by (simp add: budget_ok_def)
  next
    case False
    with that have "map_of (products st) k' = Some q" by (simp add: update_conv')
    with ok show ?thesis unfolding budget_ok_def by blast
  qed
  have c2: "\<exists>q n. map_of ?ps k' = Some q \<and> points q = Num n"
    if "k' \<in> set (selectedProducts st)" for k'
  proof -
    from ok that obtain q n where q: "map_of (products st) k' = Some q" "points q = Num n"
      unfolding budget_ok_def by blast
    show ?thesis
    proof (cases "k' = k")
      case True
      with q p show ?thesis by (simp add: update_conv')
    next
      case False
      with q show ?thesis by (simp add: update_conv')
    qed
  qed
  from ok have "jle (calculateTotalPoints (st\<lparr>products := ?ps\<rparr>)) (availablePoints st)"
    by (simp add: total_flag [OF p] budget_ok_def)
  with c1 c2 show ?thesis unfolding budget_ok_def by simp
qed

lemma total_add:
  "map_of (products st) k = Some p \<Longrightarrow> k \<notin> set (selectedProducts st) \<Longrightarrow>
   calculateTotalPoints (st\<lparr>selectedProducts := selectedProducts st @ [k]\<rparr>)
     = jadd (calculateTotalPoints st) (points p)"
  by (simp add: calculateTotalPoints_def)

lemma budget_add:
  assumes ok: "budget_ok st" and p: "map_of (products st) k = Some p"
    and le: "jle (jadd (calculateTotalPoints st) (points p)) (availablePoints st)"
  shows "budget_ok (st\<lparr>selectedProducts := set_add k (selectedProducts st)\<rparr>)"
proof (cases "k \<in> set (selectedProducts st)")
  case True
  then have "st\<lparr>selectedProducts := set_add k (selectedProducts st)\<rparr> = st"
    by (simp add: set_add_def)
  with ok show ?thesis by simp
next
  case False
  let ?t = "st\<lparr>selectedProducts := selectedProducts st @ [k]\<rparr>"
  from le obtain n where n: "points p = Num n"
    by (cases "points p"; cases "calculateTotalPoints st") simp_all
  from ok p n have "\<forall>k \<in> set (selectedProducts ?t). \<exists>p n. map_of (products ?t) k = Some p \<and> points p = Num n"
    by (auto simp: budget_ok_def)
  moreover from ok have "\<forall>k p. map_of (products ?t) k = Some p \<longrightarrow> \<not> jlt (points p) (Num 0)"
    by (simp add: budget_ok_def)
  moreover from le have "jle (calculateTotalPoints ?t) (availablePoints ?t)"
    by (simp add: total_add [OF p False])
  ultimately have "budget_ok ?t" unfolding budget_ok_def by blast
  with False show ?thesis by (simp add: set_add_def)
qed

lemma refresh_trace_core:
  "s \<in> set (refresh_trace st) \<Longrightarrow>
   selectedProducts s = selectedProducts st \<and> products s = products st
   \<and> availablePoints s = availablePoints st"
  by (auto simp: refresh_trace_def updateConfirmButton_def updatePointsDisplay_def Let_def
           split: option.splits)

lemma budget_refresh_trace: "budget_ok st \<Longrightarrow> s \<in> set (refresh_trace st) \<Longrightarrow> budget_ok s"
  using refresh_trace_core [of s st] budget_ok_cong [of s st] by simp

lemma budget_trace:
  assumes ok: "budget_ok st" and s: "s \<in> set (toggleProductSelection_trace k st)"
  shows "budget_ok s"
proof (cases "map_of (products st) k")
  case None
  with s ok show ?thesis by (simp add: toggleProductSelection_trace_def)
next
  case (Some p)
  show ?thesis
  proof (cases "selected p")
    case True
    let ?s1 = "st\<lparr>selectedProducts := set_delete k (selectedProducts st)\<rparr>"
    let ?s2 = "?s1\<lparr>products := AList.update k (p\<lparr>selected := False\<rparr>) (products ?s1)\<rparr>"
    have ok1: "budget_ok ?s1" by (rule budget_delete [OF ok])
    have "map_of (products ?s1) k = Some p" using Some by simp
    then have ok2: "budget_ok ?s2" by (rule budget_flag [OF ok1])
    from s Some True have "s = st \<or> s = ?s1 \<or> s = ?s2 \<or> s \<in> set (refresh_trace ?s2)"
      by (simp add: toggleProductSelection_trace_def Let_def)
    with ok ok1 ok2 budget_refresh_trace [OF ok2] show ?thesis by blast
  next
    case False
    show ?thesis
    proof (cases "jle (jadd (calculateTotalPoints st) (points p)) (availablePoints st)")
      case le: True
      let ?s1 = "st\<lparr>selectedProducts := set_add k (selectedProducts st)\<rparr>"
      let ?s2 = "?s1\<lparr>products := AList.update k (p\<lparr>selected := True\<rparr>) (products ?s1)\<rparr>"
      have ok1: "budget_ok ?s1" by (rule budget_add [OF ok Some le])
      have "map_of (products ?s1) k = Some p" using Some by simp
      then have ok2: "budget_ok ?s2" by (rule budget_flag [OF ok1])
      from s Some False le have "s = st \<or> s = ?s1 \<or> s = ?s2 \<or> s \<in> set (refresh_trace ?s2)"
        by (simp add: toggleProductSelection_trace_def Let_def)
      with ok ok1 ok2 budget_refresh_trace [OF ok2] show ?thesis by blast
    next
      case nle: False
      from s Some False nle have "s = st \<or> s \<in> set (refresh_trace st)"
        by (simp add: toggleProductSelection_trace_def Let_def)
      with ok budget_refresh_trace [OF ok] show ?thesis by blast
    qed
  qed
qed

lemma refresh_trace_last: "last (refresh_trace st) = snd (refresh st)"
  by (auto simp: refresh_trace_def refresh_def andThen_def split: prod.splits completion.splits)

lemma refresh_trace_nonempty: "refresh_trace st \<noteq> []"
  by (auto simp: refresh_trace_def split: prod.splits completion.splits)

lemma toggleProductSelection_trace_last:
  "last (toggleProductSelection_trace k st) = snd (toggleProductSelection k st)"
  by (simp add: toggleProductSelection_trace_def toggleProductSelection_def Let_def
        refresh_trace_last refresh_trace_nonempty split: option.splits)

lemma toggleProductSelection_trace_nonempty: "toggleProductSelection_trace k st \<noteq> []"
  by (simp add: toggleProductSelection_trace_def Let_def split: option.splits)

lemma toggleProductSelection_trace_ends:
  "st \<in> set (toggleProductSelection_trace k st)"
  "snd (toggleProductSelection k st) \<in> set (toggleProductSelection_trace k st)"
proof -
  show "st \<in> set (toggleProductSelection_trace k st)"
    by (simp add: toggleProductSelection_trace_def Let_def split: option.splits)
  have "last (toggleProductSelection_trace k st) \<in> set (toggleProductSelection_trace k st)"
    by (rule last_in_set) (rule toggleProductSelection_trace_nonempty)
  then show "snd (toggleProductSelection k st) \<in> set (toggleProductSelection_trace k st)"
    by (simp add: toggleProductSelection_trace_last)
qed

lemma budget_toggle: "budget_ok st \<Longrightarrow> budget_ok (snd (toggleProductSelection k st))"
proof -
  assume ok: "budget_ok st"
  have "last (toggleProductSelection_trace k st) \<in> set (toggleProductSelection_trace k st)"
    by (rule last_in_set) (rule toggleProductSelection_trace_nonempty)
  from budget_trace [OF ok this] show ?thesis
    by (simp add: toggleProductSelection_trace_last)
qed

subsection \<open>Every event keeps the invariants\<close>

lemma wf_deselect:
  assumes "wf st" and p: "map_of (products st) k = Some p"
  shows "wf (st\<lparr>selectedProducts := set_delete k (selectedProducts st),
               products := AList.update k (p\<lparr>selected := False\<rparr>) (products st)\<rparr>)"
  using assms unfolding wf_def
  by (auto simp: set_delete_def update_conv' distinct_removeAll distinct_update)

lemma wf_select:
  assumes "wf st" and p: "map_of (products st) k = Some p"
  shows "wf (st\<lparr>selectedProducts := set_add k (selectedProducts st),
               products := AList.update k (p\<lparr>selected := True\<rparr>) (products st)\<rparr>)"
  using assms unfolding wf_def
  by (auto simp: set_add_def update_conv' distinct_update)

lemma wf_toggle: "wf st \<Longrightarrow> wf (snd (toggleProductSelection k st))"
  by (auto simp: toggleProductSelection_def Let_def wf_refresh wf_deselect wf_select
           split: option.splits)

lemma callback_core:
  "selectedProducts (snd (processExchange_callback st)) = []"
  "products (snd (processExchange_callback st))
     = map (\<lambda>(k, product). (k, product\<lparr>selected := False\<rparr>)) (products st)"
  "availablePoints (snd (processExchange_callback st)) = jsub (availablePoints st) (Num 0)"
  by (simp_all add: processExchange_callback_def Let_def refresh_core calculateTotalPoints_def)

lemma map_of_cleared:
  "map_of (map (\<lambda>(k, product). (k, product\<lparr>selected := False\<rparr>)) ps) k
     = map_option (\<lambda>product. product\<lparr>selected := False\<rparr>) (map_of ps k)"
  by (induction ps) auto

lemma keys_cleared:
  "map fst (map (\<lambda>(k, product). (k, product\<lparr>selected := False\<rparr>)) ps) = map fst ps"
  by (induction ps) auto

lemma wf_callback:
  assumes "wf st"
  shows "wf (snd (processExchange_callback st))"
proof -
  let ?t = "snd (processExchange_callback st)"
  from assms have ids: "\<forall>k p. map_of (products st) k = Some p \<longrightarrow> id_of p = k"
    and keys: "distinct (map fst (products st))"
    and avail: "availablePoints st = Num 7000"
    unfolding wf_def by blast+
  have "\<forall>k. (k \<in> set (selectedProducts ?t)) = (\<exists>p. map_of (products ?t) k = Some p \<and> selected p)"
    by (auto simp: callback_core map_of_cleared)
  moreover from ids have "\<forall>k p. map_of (products ?t) k = Some p \<longrightarrow> id_of p = k"
    by (auto simp: callback_core map_of_cleared)
  moreover have "distinct (selectedProducts ?t)"
    by (simp add: callback_core)
  moreover from keys have "distinct (map fst (products ?t))"
    unfolding callback_core keys_cleared .
  moreover from avail have "availablePoints ?t = Num 7000"
    by (simp add: callback_core)
  ultimately show ?thesis unfolding wf_def by blast
qed

lemma budget_callback:
  "budget_ok st \<Longrightarrow> availablePoints st = Num 7000 \<Longrightarrow> budget_ok (snd (processExchange_callback st))"
  unfolding budget_ok_def
  by (auto simp: callback_core map_of_cleared calculateTotalPoints_def)

lemma processExchange_core:
  "selectedProducts (snd (processExchange st)) = selectedProducts st"
  "products (snd (processExchange st)) = products st"
  "availablePoints (snd (processExchange st)) = availablePoints st"
  by (simp_all add: processExchange_def split: option.splits)

lemma handleConfirmSelection_core:
  "selectedProducts (snd (handleConfirmSelection a st)) = selectedProducts st"
  "products (snd (handleConfirmSelection a st)) = products st"
  "availablePoints (snd (handleConfirmSelection a st)) = availablePoints st"
  by (cases a; simp add: handleConfirmSelection_def processExchange_core)+

lemma confirmButton_click_core:
  "selectedProducts (snd (confirmButton_click a st)) = selectedProducts st"
  "products (snd (confirmButton_click a st)) = products st"
  "availablePoints (snd (confirmButton_click a st)) = availablePoints st"
  by (simp_all add: confirmButton_click_def handleConfirmSelection_core split: option.splits)

lemma wf_step: "wf st \<Longrightarrow> wf (step e st)"
proof (cases e)
  case (Toggle k)
  then show "wf st \<Longrightarrow> wf (step e st)" by (simp add: wf_toggle)
next
  case (ConfirmClick a)
  have "wf (snd (confirmButton_click a st)) = wf st"
    by (rule wf_cong) (simp_all add: confirmButton_click_core)
  with ConfirmClick show "wf st \<Longrightarrow> wf (step e st)" by simp
next
  case (Confirm a)
  have "wf (snd (handleConfirmSelection a st)) = wf st"
    by (rule wf_cong) (simp_all add: handleConfirmSelection_core)
  with Confirm show "wf st \<Longrightarrow> wf (step e st)" by simp
next
  case ExchangeTimeout
  assume w: "wf st"
  have "wf (st\<lparr>pendingExchanges := pendingExchanges st - 1\<rparr>) = wf st"
    by (rule wf_cong) simp_all
  with w ExchangeTimeout show "wf (step e st)" by (simp add: wf_callback)
qed

lemma budget_step: "wf st \<Longrightarrow> budget_ok st \<Longrightarrow> budget_ok (step e st)"
proof (cases e)
  case (Toggle k)
  then show "budget_ok st \<Longrightarrow> budget_ok (step e st)" by (simp add: budget_toggle)
next
  case (ConfirmClick a)
  have "budget_ok (snd (confirmButton_click a st)) = budget_ok st"
    by (rule budget_ok_cong) (simp_all add: confirmButton_click_core)
  with ConfirmClick show "budget_ok st \<Longrightarrow> budget_ok (step e st)" by simp
next
  case (Confirm a)
  have "budget_ok (snd (handleConfirmSelection a st)) = budget_ok st"
    by (rule budget_ok_cong) (simp_all add: handleConfirmSelection_core)
  with Confirm show "budget_ok st \<Longrightarrow> budget_ok (step e st)" by simp
next
  case ExchangeTimeout
  assume w: "wf st" and b: "budget_ok st"
  let ?t = "st\<lparr>pendingExchanges := pendingExchanges st - 1\<rparr>"
  have "budget_ok ?t = budget_ok st"
    by (rule budget_ok_cong) simp_all
  moreover from w have "availablePoints ?t = Num 7000" by (simp add: wf_def)
  ultimately show "budget_ok (step e st)"
    using b ExchangeTimeout by (simp add: budget_callback)
qed

lemma run_snoc: "run (es @ [e]) st = step e (run es st)"
  by (simp add: run_def)

lemma run_two: "run [a, b] st = step b (step a st)"
  by (simp add: run_def)

lemma wf_run: "wf st \<Longrightarrow> wf (run es st)"
  by (induction es rule: rev_induct) (simp_all add: run_def wf_step)

lemma budget_run: "wf st \<Longrightarrow> budget_ok st \<Longrightarrow> budget_ok (run es st)"
  by (induction es rule: rev_induct) (simp_all add: run_snoc wf_run budget_step, simp add: run_def)

lemma wf_reachable: "wf (run es (snd (init doc)))"
  by (rule wf_run) (rule wf_init)

lemma budget_reachable:
  "nonneg_costs (products (snd (init doc))) \<Longrightarrow> budget_ok (run es (snd (init doc)))"
  by (rule budget_run) (simp_all add: wf_init budget_ok_init)

subsection \<open>The two sums of costs\<close>

lemma selection_cost_total:
  "budget_ok st \<Longrightarrow> calculateTotalPoints st = Num (selection_cost st)"
  by (simp add: total_num selection_cost_def)

lemma selection_cost_within:
  "budget_ok st \<Longrightarrow> jle (Num (selection_cost st)) (availablePoints st)"
  using selection_cost_total [of st] by (simp add: budget_ok_def)

lemma flagged_as_keys:
  assumes d: "distinct (map fst ps)" and sub: "set qs \<subseteq> set ps"
  shows "sum_list (map (\<lambda>(k, p). if selected p then product_cost p else 0) qs)
       = sum_list (map (cost ps) (map fst (filter (selected \<circ> snd) qs)))"
  using sub
proof (induction qs)
  case Nil
  then show ?case by simp
next
  case (Cons q qs)
  obtain k p where q: "q = (k, p)" by (cases q)
  with Cons.prems have "(k, p) \<in> set ps" by simp
  with d have "map_of ps k = Some p" by (rule map_of_is_SomeI)
  then have "cost ps k = product_cost p" by (simp add: cost_def)
  with Cons q show ?case by simp
qed

lemma flagged_keys_set:
  assumes d: "distinct (map fst ps)"
  shows "set (map fst (filter (selected \<circ> snd) ps))
       = {k. \<exists>p. map_of ps k = Some p \<and> selected p}"
proof (rule set_eqI)
  fix k
  show "k \<in> set (map fst (filter (selected \<circ> snd) ps))
      \<longleftrightarrow> k \<in> {k. \<exists>p. map_of ps k = Some p \<and> selected p}"
  proof
    assume "k \<in> set (map fst (filter (selected \<circ> snd) ps))"
    then obtain p where "(k, p) \<in> set ps" and "selected p" by auto
    with d show "k \<in> {k. \<exists>p. map_of ps k = Some p \<and> selected p}"
      by (auto intro: map_of_is_SomeI)
  next
    assume "k \<in> {k. \<exists>p. map_of ps k = Some p \<and> selected p}"
    then obtain p where p: "map_of ps k = Some p" and s: "selected p" by auto
    from p have "(k, p) \<in> set ps" by (rule map_of_SomeD)
    with s show "k \<in> set (map fst (filter (selected \<circ> snd) ps))" by force
  qed
qed

lemma flagged_eq_selection:
  assumes "wf st"
  shows "flagged_cost st = selection_cost st"
proof -
  let ?ps = "products st"
  let ?fk = "map fst (filter (selected \<circ> snd) ?ps)"
  from assms have d: "distinct (map fst ?ps)" and ds: "distinct (selectedProducts st)"
    and c: "set (selectedProducts st) = {k. \<exists>p. map_of ?ps k = Some p \<and> selected p}"
    unfolding wf_def by blast+
  have "flagged_cost st = sum_list (map (cost ?ps) ?fk)"
    unfolding flagged_cost_def by (rule flagged_as_keys [OF d]) simp
  also have "\<dots> = sum (cost ?ps) (set ?fk)"
    by (rule sum_list_distinct_conv_sum_set) (rule distinct_map_filter [OF d])
  also have "set ?fk = set (selectedProducts st)"
    using flagged_keys_set [OF d] c by simp
  also have "sum (cost ?ps) (set (selectedProducts st)) = selection_cost st"
    unfolding selection_cost_def by (rule sum_list_distinct_conv_sum_set [OF ds, symmetric])
  finally show ?thesis .
qed

lemma flagged_cost_cong: "products s = products t \<Longrightarrow> flagged_cost s = flagged_cost t"
  by (simp add: flagged_cost_def)

lemma trace_products:
  "s \<in> set (toggleProductSelection_trace k st) \<Longrightarrow>
   availablePoints s = availablePoints st
   \<and> (products s = products st \<or> products s = products (snd (toggleProductSelection k st)))"
  by (auto simp: toggleProductSelection_trace_def toggleProductSelection_def Let_def refresh_core
           dest: refresh_trace_core split: option.splits if_splits)

lemma toggle_availablePoints:
  "availablePoints (snd (toggleProductSelection k st)) = availablePoints st"
  by (simp add: toggleProductSelection_def Let_def refresh_core split: option.splits)

lemma flagged_within_trace:
  assumes w: "wf st" and b: "budget_ok st" and s: "s \<in> set (toggleProductSelection_trace k st)"
  shows "jle (Num (flagged_cost s)) (availablePoints s)"
proof -
  let ?t = "snd (toggleProductSelection k st)"
  from trace_products [OF s] have a: "availablePoints s = availablePoints st"
    and ps: "products s = products st \<or> products s = products ?t" by simp_all
  from w b have "jle (Num (flagged_cost st)) (availablePoints st)"
    by (simp add: flagged_eq_selection selection_cost_within)
  moreover from w b have "jle (Num (flagged_cost ?t)) (availablePoints ?t)"
    by (simp add: flagged_eq_selection selection_cost_within wf_toggle budget_toggle)
  ultimately show ?thesis
    using a ps flagged_cost_cong [of s st] flagged_cost_cong [of s ?t]
    by (auto simp: toggle_availablePoints)
qed

subsection \<open>The click listener of the button\<close>

text \<open>
  \<^verbatim>\<open>init\<close> calls \<^verbatim>\<open>initEventListeners\<close> (line 20) before it assigns
  \<^verbatim>\<open>confirmButton\<close> (line 21), so the optional call of line 61 finds no element and
  attaches nothing: a click on the button never reaches \<^verbatim>\<open>handleConfirmSelection\<close>.
  The statements about an exchange below are about the methods themselves.
\<close>

lemma listener_core:
  "confirmListener (snd (toggleProductSelection k st)) = confirmListener st"
  "confirmListener (snd (processExchange st)) = confirmListener st"
  "confirmListener (snd (processExchange_callback st)) = confirmListener st"
  by (simp_all add: toggleProductSelection_def processExchange_def processExchange_callback_def
        Let_def refresh_core split: option.splits)

lemma listener_step: "confirmListener (step e st) = confirmListener st"
  by (cases e)
     (simp_all add: listener_core handleConfirmSelection_def confirmButton_click_def
        split: option.splits dialog.splits)

lemma confirm_listener_never_attached: "confirmListener (run es (snd (init doc))) = False"
  by (induction es rule: rev_induct) (simp_all add: run_snoc listener_step, simp add: run_def init_core)

lemma confirm_click_does_nothing:
  "step (ConfirmClick answer) (run es (snd (init doc))) = run es (snd (init doc))"
  by (simp add: confirmButton_click_def confirm_listener_never_attached)

section \<open>The claims of the specification\<close>

subsection \<open>C1: the state after an exchange completes\<close>

text \<open>
  Claim C1: after the deferred completion of \<^verbatim>\<open>processExchange\<close> has run, the
  selection is empty, every product's flag is false, and \<open>availablePoints\<close> is its
  value at that moment minus the total cost of the products selected at that moment.
  The callback empties the selection (line 175) before it subtracts
  \<^verbatim>\<open>calculateTotalPoints()\<close> (line 179), so it subtracts 0. On the page with A (3000)
  and B (5000): A is selected, the exchange is confirmed, the total is 3000 and the
  budget 7000 when the callback runs; afterwards the selection is empty, both flags
  are false, and the budget is still 7000, not 4000.
\<close>

theorem exchange_callback_leaves_budget:
  "calculateTotalPoints (run [Toggle (Some (js ''A'')), Confirm Accepted] (snd (init page_AB))) = Num 3000
   \<and> availablePoints (run [Toggle (Some (js ''A'')), Confirm Accepted] (snd (init page_AB))) = Num 7000
   \<and> pendingExchanges (run [Toggle (Some (js ''A'')), Confirm Accepted] (snd (init page_AB))) = 1
   \<and> selectedProducts
        (run [Toggle (Some (js ''A'')), Confirm Accepted, ExchangeTimeout] (snd (init page_AB))) = []
   \<and> map (selected \<circ> snd)
        (products (run [Toggle (Some (js ''A'')), Confirm Accepted, ExchangeTimeout] (snd (init page_AB))))
        = [False, False]
   \<and> availablePoints
        (run [Toggle (Some (js ''A'')), Confirm Accepted, ExchangeTimeout] (snd (init page_AB))) = Num 7000"
  by code_simp

subsection \<open>C2: the button while an exchange is pending\<close>

text \<open>
  Claim C2: from the call of \<^verbatim>\<open>processExchange\<close> until its callback runs, the
  confirmation button stays disabled whatever is toggled in between, so no second
  exchange can start. \<^verbatim>\<open>processExchange\<close> disables the button (line 169), but every
  toggle ends with \<^verbatim>\<open>updateConfirmButton\<close>, which sets \<^verbatim>\<open>disabled\<close> from the selection
  alone (line 112). On the page with A (3000) and B (2000): after selecting A and
  confirming, one callback is pending and the button is disabled; selecting B then
  enables the button while the callback is still pending, and a second confirmation
  schedules a second callback.
\<close>

theorem toggle_enables_button_while_pending:
  "pendingExchanges (run [Toggle (Some (js ''A'')), Confirm Accepted] (snd (init page_two))) = 1
   \<and> map_option disabled
        (confirmButton (run [Toggle (Some (js ''A'')), Confirm Accepted] (snd (init page_two)))) = Some True
   \<and> pendingExchanges
        (run [Toggle (Some (js ''A'')), Confirm Accepted, Toggle (Some (js ''B''))] (snd (init page_two))) = 1
   \<and> map_option disabled
        (confirmButton
           (run [Toggle (Some (js ''A'')), Confirm Accepted, Toggle (Some (js ''B''))] (snd (init page_two))))
        = Some False
   \<and> pendingExchanges
        (run [Toggle (Some (js ''A'')), Confirm Accepted, Toggle (Some (js ''B'')), Confirm Accepted]
           (snd (init page_two))) = 2"
  by code_simp

subsection \<open>C3: the total of the selection never exceeds the budget\<close>

text \<open>
  Claim C3: starting from the initial state of a page whose products have non-negative
  costs, after every sequence of toggles the sum of the costs of the selected products
  is at most \<open>availablePoints\<close>, and this also holds in every state a further toggle
  passes through, between its assignments and refreshes included: the states of its
  trace, which starts with the state before the toggle and ends with the state after
  it. The sum is taken over the members of the selection and over the flagged
  products; what \<^verbatim>\<open>calculateTotalPoints\<close> returns is the former.
\<close>

theorem budget_invariant_under_toggles:
  assumes "nonneg_costs (products (snd (init doc)))"
  shows "jle (Num (selection_cost (run (map Toggle ks) (snd (init doc)))))
             (availablePoints (run (map Toggle ks) (snd (init doc))))
       \<and> flagged_cost (run (map Toggle ks) (snd (init doc)))
           = selection_cost (run (map Toggle ks) (snd (init doc)))
       \<and> run (map Toggle ks) (snd (init doc))
           \<in> set (toggleProductSelection_trace k (run (map Toggle ks) (snd (init doc))))
       \<and> step (Toggle k) (run (map Toggle ks) (snd (init doc)))
           \<in> set (toggleProductSelection_trace k (run (map Toggle ks) (snd (init doc))))
       \<and> (\<forall>s \<in> set (toggleProductSelection_trace k (run (map Toggle ks) (snd (init doc)))).
             jle (Num (selection_cost s)) (availablePoints s)
             \<and> jle (Num (flagged_cost s)) (availablePoints s)
             \<and> calculateTotalPoints s = Num (selection_cost s))"
proof -
  let ?st = "run (map Toggle ks) (snd (init doc))"
  have b: "budget_ok ?st" by (rule budget_reachable [OF assms])
  have w: "wf ?st" by (rule wf_reachable)
  have "jle (Num (selection_cost s)) (availablePoints s)
      \<and> jle (Num (flagged_cost s)) (availablePoints s)
      \<and> calculateTotalPoints s = Num (selection_cost s)"
    if s: "s \<in> set (toggleProductSelection_trace k ?st)" for s
  proof -
    from b s have "budget_ok s" by (rule budget_trace)
    then show ?thesis
      using flagged_within_trace [OF w b s]
      by (simp add: selection_cost_within selection_cost_total)
  qed
  with b w show ?thesis
    by (simp add: selection_cost_within flagged_eq_selection toggleProductSelection_trace_ends)
qed

theorem budget_invariant_under_toggles_witness:
  "nonneg_costs (products (snd (init page_two)))
   \<and> jle (Num (selection_cost (run (map Toggle [Some (js ''A'')]) (snd (init page_two)))))
          (availablePoints (run (map Toggle [Some (js ''A'')]) (snd (init page_two))))
   \<and> list_all (\<lambda>s. jle (Num (selection_cost s)) (availablePoints s)
                    \<and> jle (Num (flagged_cost s)) (availablePoints s)
                    \<and> calculateTotalPoints s = Num (selection_cost s))
        (toggleProductSelection_trace (Some (js ''B''))
           (run (map Toggle [Some (js ''A'')]) (snd (init page_two))))
   \<and> map selection_cost (toggleProductSelection_trace (Some (js ''B''))
        (run (map Toggle [Some (js ''A'')]) (snd (init page_two)))) = [3000, 5000, 5000, 5000, 5000]
   \<and> map flagged_cost (toggleProductSelection_trace (Some (js ''B''))
        (run (map Toggle [Some (js ''A'')]) (snd (init page_two)))) = [3000, 3000, 5000, 5000, 5000]"
proof -
  have h: "nonneg_costs (products (snd (init page_two)))" by code_simp
  have l: "map selection_cost (toggleProductSelection_trace (Some (js ''B''))
      (run (map Toggle [Some (js ''A'')]) (snd (init page_two)))) = [3000, 5000, 5000, 5000, 5000]"
    by code_simp
  have f: "map flagged_cost (toggleProductSelection_trace (Some (js ''B''))
      (run (map Toggle [Some (js ''A'')]) (snd (init page_two)))) = [3000, 3000, 5000, 5000, 5000]"
    by code_simp
  from budget_invariant_under_toggles [OF h, of "[Some (js ''A'')]" "Some (js ''B'')"] h l f
  show ?thesis by (simp add: list_all_iff)
qed

subsection \<open>C4: cards with a missing attribute\<close>

text \<open>
  Claim C4, as amended: during initialisation every scanned card gets a product, also
  a card that lacks its identifier or its cost. The product is stored under the
  card's identifier (the key \<^verbatim>\<open>undefined\<close> when the attribute is absent), unselected,
  with the cost parsed from the last card that carries this identifier (\<open>NaN\<close> when
  that card has no cost attribute). A missing attribute does not make initialisation
  fail: on a page that has the confirmation button, initialisation completes.
\<close>

theorem every_card_gets_a_product:
  assumes "c \<in> set (product_cards doc)"
  shows "map_of (products (snd (init doc))) (data_id c) =
           Some \<lparr>id_of = data_id c,
                 points = parseInt (data_points
                            (last (filter (\<lambda>c'. data_id c' = data_id c) (product_cards doc)))),
                 selected = False\<rparr>
       \<and> (confirmButton_el doc \<noteq> None \<longrightarrow> fst (init doc) = Normal)"
  using initProducts_last [OF assms, of "new_controller doc"] init_completion [of doc]
  by (simp add: init_core)

theorem every_card_gets_a_product_witness:
  "card_without_cost \<in> set (product_cards page_malformed)
   \<and> data_points card_without_cost = None
   \<and> map_of (products (snd (init page_malformed))) (data_id card_without_cost) =
         Some \<lparr>id_of = data_id card_without_cost, points = NaN, selected = False\<rparr>
   \<and> confirmButton_el page_malformed \<noteq> None
   \<and> fst (init page_malformed) = Normal"
proof -
  have h: "card_without_cost \<in> set (product_cards page_malformed)"
    by (simp add: page_malformed_def)
  have n: "data_points card_without_cost = None" by (simp add: card_without_cost_def)
  have b: "confirmButton_el page_malformed \<noteq> None" by (simp add: page_malformed_def)
  have e: "parseInt (data_points (last (filter (\<lambda>c'. data_id c' = data_id card_without_cost)
             (product_cards page_malformed)))) = NaN"
    by code_simp
  from every_card_gets_a_product [OF h] h n b e show ?thesis by simp
qed

text \<open>
  The claim as written says that no product is constructed for such a card. On the
  page whose first card has no identifier and whose second card has no cost, the
  catalogue holds a product for each, and the product under the absent identifier can
  be selected.
\<close>

theorem malformed_card_is_not_skipped:
  "data_id card_without_id = None
   \<and> data_points card_without_cost = None
   \<and> product_cards page_malformed = [card_without_id, card_without_cost]
   \<and> products (snd (init page_malformed)) =
     [(None, \<lparr>id_of = None, points = Num 3000, selected = False\<rparr>),
      (Some (js ''B''), \<lparr>id_of = Some (js ''B''), points = NaN, selected = False\<rparr>)]
   \<and> selectedProducts (run [Toggle None] (snd (init page_malformed))) = [None]"
  by code_simp

subsection \<open>C5: a page without the confirmation button\<close>

text \<open>
  Claim C5: when the confirmation button is absent, every later operation that touches
  it, the refresh after a toggle in particular, is a guarded no-op and not a crash.
  Only the listener registration of line 61 is guarded; \<^verbatim>\<open>updateConfirmButton\<close> writes
  to the field unguarded (line 112). On the page without the button the constructor
  throws a \<^verbatim>\<open>TypeError\<close>, and so does a click on card A, after it has selected A.
\<close>

theorem missing_button_throws:
  "confirmButton_el page_no_button = None
   \<and> fst (init page_no_button) = Thrown TypeError
   \<and> fst (toggleProductSelection (Some (js ''A'')) (snd (init page_no_button))) = Thrown TypeError
   \<and> selectedProducts (snd (toggleProductSelection (Some (js ''A'')) (snd (init page_no_button))))
       = [Some (js ''A'')]"
  by code_simp

subsection \<open>C6: a rejected selection\<close>

text \<open>
  Claim C6: when the selection of an unselected product is rejected because the
  current total plus its cost is not within \<open>availablePoints\<close>, the toggle leaves the
  selection, every product's flag and \<open>availablePoints\<close> as they were.
\<close>

theorem rejected_selection_changes_nothing:
  assumes "map_of (products st) k = Some p" and "\<not> selected p"
    and "\<not> jle (jadd (calculateTotalPoints st) (points p)) (availablePoints st)"
  shows "selectedProducts (snd (toggleProductSelection k st)) = selectedProducts st
       \<and> products (snd (toggleProductSelection k st)) = products st
       \<and> availablePoints (snd (toggleProductSelection k st)) = availablePoints st"
  using assms by (simp add: toggleProductSelection_def Let_def refresh_core)

theorem rejected_selection_changes_nothing_witness:
  "map_of (products (run [Toggle (Some (js ''A''))] (snd (init page_AB)))) (Some (js ''B''))
       = Some \<lparr>id_of = Some (js ''B''), points = Num 5000, selected = False\<rparr>
   \<and> \<not> jle (jadd (calculateTotalPoints (run [Toggle (Some (js ''A''))] (snd (init page_AB)))) (Num 5000))
            (availablePoints (run [Toggle (Some (js ''A''))] (snd (init page_AB))))
   \<and> selectedProducts
        (snd (toggleProductSelection (Some (js ''B'')) (run [Toggle (Some (js ''A''))] (snd (init page_AB)))))
       = selectedProducts (run [Toggle (Some (js ''A''))] (snd (init page_AB)))
   \<and> products
        (snd (toggleProductSelection (Some (js ''B'')) (run [Toggle (Some (js ''A''))] (snd (init page_AB)))))
       = products (run [Toggle (Some (js ''A''))] (snd (init page_AB)))
   \<and> availablePoints
        (snd (toggleProductSelection (Some (js ''B'')) (run [Toggle (Some (js ''A''))] (snd (init page_AB)))))
       = availablePoints (run [Toggle (Some (js ''A''))] (snd (init page_AB)))"
proof -
  let ?st = "run [Toggle (Some (js ''A''))] (snd (init page_AB))"
  let ?p = "\<lparr>id_of = Some (js ''B''), points = Num 5000, selected = False\<rparr>"
  have p: "map_of (products ?st) (Some (js ''B'')) = Some ?p" by code_simp
  have s: "\<not> selected ?p" by simp
  have r: "\<not> jle (jadd (calculateTotalPoints ?st) (points ?p)) (availablePoints ?st)" by code_simp
  from rejected_selection_changes_nothing [OF p s r] p r show ?thesis by simp
qed

subsection \<open>C7: the selection and the flags agree\<close>

text \<open>
  Claim C7: in every state reached from the initial one by toggles, confirmations and
  completed exchanges, an identifier is in the selection exactly when the catalogue
  holds a product with that identifier whose flag is true.
\<close>

theorem selection_matches_flags:
  "(k \<in> set (selectedProducts (run es (snd (init doc))))) =
     (\<exists>p. map_of (products (run es (snd (init doc)))) k = Some p \<and> id_of p = k \<and> selected p)"
  using wf_reachable [of es doc] unfolding wf_def by blast

subsection \<open>C8: the scenario with a budget of 7000\<close>

text \<open>
  Claim C8: with \<open>availablePoints\<close> 7000 and an empty selection, selecting A (3000)
  succeeds and leaves 4000; selecting B (5000) is then rejected and leaves 4000;
  deselecting A leaves 7000; selecting B then succeeds and leaves 2000.
\<close>

theorem budget_scenario:
  assumes "availablePoints st = Num 7000" and "selectedProducts st = []"
    and "map_of (products st) a = Some pa" and "points pa = Num 3000" and "\<not> selected pa"
    and "map_of (products st) b = Some pb" and "points pb = Num 5000" and "\<not> selected pb"
    and "a \<noteq> b"
  shows "selectedProducts (run [Toggle a] st) = [a]
       \<and> remaining (run [Toggle a] st) = Num 4000
       \<and> selectedProducts (run [Toggle a, Toggle b] st) = [a]
       \<and> remaining (run [Toggle a, Toggle b] st) = Num 4000
       \<and> selectedProducts (run [Toggle a, Toggle b, Toggle a] st) = []
       \<and> remaining (run [Toggle a, Toggle b, Toggle a] st) = Num 7000
       \<and> selectedProducts (run [Toggle a, Toggle b, Toggle a, Toggle b] st) = [b]
       \<and> remaining (run [Toggle a, Toggle b, Toggle a, Toggle b] st) = Num 2000"
  using assms
  by (simp add: run_def toggleProductSelection_def remaining_def total_refresh refresh_core
      calculateTotalPoints_def set_add_def set_delete_def update_conv' Let_def)

theorem budget_scenario_witness:
  "availablePoints (snd (init page_AB)) = Num 7000
   \<and> selectedProducts (snd (init page_AB)) = []
   \<and> map_of (products (snd (init page_AB))) (Some (js ''A''))
       = Some \<lparr>id_of = Some (js ''A''), points = Num 3000, selected = False\<rparr>
   \<and> map_of (products (snd (init page_AB))) (Some (js ''B''))
       = Some \<lparr>id_of = Some (js ''B''), points = Num 5000, selected = False\<rparr>
   \<and> selectedProducts (run [Toggle (Some (js ''A''))] (snd (init page_AB))) = [Some (js ''A'')]
   \<and> remaining (run [Toggle (Some (js ''A''))] (snd (init page_AB))) = Num 4000
   \<and> selectedProducts (run [Toggle (Some (js ''A'')), Toggle (Some (js ''B''))] (snd (init page_AB)))
       = [Some (js ''A'')]
   \<and> remaining (run [Toggle (Some (js ''A'')), Toggle (Some (js ''B''))] (snd (init page_AB))) = Num 4000
   \<and> selectedProducts
        (run [Toggle (Some (js ''A'')), Toggle (Some (js ''B'')), Toggle (Some (js ''A''))] (snd (init page_AB)))
       = []
   \<and> remaining
        (run [Toggle (Some (js ''A'')), Toggle (Some (js ''B'')), Toggle (Some (js ''A''))] (snd (init page_AB)))
       = Num 7000
   \<and> selectedProducts
        (run [Toggle (Some (js ''A'')), Toggle (Some (js ''B'')), Toggle (Some (js ''A'')), Toggle (Some (js ''B''))]
           (snd (init page_AB))) = [Some (js ''B'')]
   \<and> remaining
        (run [Toggle (Some (js ''A'')), Toggle (Some (js ''B'')), Toggle (Some (js ''A'')), Toggle (Some (js ''B''))]
           (snd (init page_AB))) = Num 2000"
proof -
  let ?pa = "\<lparr>id_of = Some (js ''A''), points = Num 3000, selected = False\<rparr>"
  let ?pb = "\<lparr>id_of = Some (js ''B''), points = Num 5000, selected = False\<rparr>"
  have h1: "availablePoints (snd (init page_AB)) = Num 7000" by (simp add: init_core)
  have h2: "selectedProducts (snd (init page_AB)) = []" by (simp add: init_core)
  have h3: "map_of (products (snd (init page_AB))) (Some (js ''A'')) = Some ?pa" by code_simp
  have h4: "points ?pa = Num 3000" by simp
  have h5: "\<not> selected ?pa" by simp
  have h6: "map_of (products (snd (init page_AB))) (Some (js ''B'')) = Some ?pb" by code_simp
  have h7: "points ?pb = Num 5000" by simp
  have h8: "\<not> selected ?pb" by simp
  have h9: "Some (js ''A'') \<noteq> Some (js ''B'')" by (simp add: js_def)
  from budget_scenario [OF h1 h2 h3 h4 h5 h6 h7 h8 h9] h1 h2 h3 h6 show ?thesis by simp
qed

subsection \<open>C9: toggling a selected product twice\<close>

text \<open>
  Claim C9: in every state reached from the initial one, on a page whose products have
  non-negative costs as the data model has them, and for every product that is
  selected there, toggling that product twice in succession gives back the same
  selection (the same members) and the same catalogue, flags included.
\<close>

theorem toggle_twice_restores:
  assumes neg: "nonneg_costs (products (snd (init doc)))"
    and p: "map_of (products (run es (snd (init doc)))) k = Some p" and sel: "selected p"
  shows "set (selectedProducts (run [Toggle k, Toggle k] (run es (snd (init doc)))))
           = set (selectedProducts (run es (snd (init doc))))
       \<and> products (run [Toggle k, Toggle k] (run es (snd (init doc))))
           = products (run es (snd (init doc)))"
proof -
  let ?st = "run es (snd (init doc))"
  let ?s1 = "?st\<lparr>selectedProducts := set_delete k (selectedProducts ?st),
               products := AList.update k (p\<lparr>selected := False\<rparr>) (products ?st)\<rparr>"
  have w: "wf ?st" by (rule wf_reachable)
  have b: "budget_ok ?st" by (rule budget_reachable [OF neg])
  from w p sel have kin: "k \<in> set (selectedProducts ?st)" and dist: "distinct (selectedProducts ?st)"
    unfolding wf_def by blast+
  from b kin p obtain n where n: "points p = Num n" unfolding budget_ok_def by fastforce
  have t1: "snd (toggleProductSelection k ?st) = snd (refresh ?s1)"
    using p sel by (simp add: toggleProductSelection_def Let_def)
  have b1: "budget_ok (snd (refresh ?s1))"
    using budget_toggle [OF b, of k] t1 by simp
  then have b1': "budget_ok ?s1" by (simp add: budget_ok_refresh)
  have cost_eq: "cost (products ?s1) = cost (products ?st)"
    using p by (auto simp: cost_def product_cost_def update_conv' fun_eq_iff)
  have "sum_list (map (cost (products ?st)) (selectedProducts ?st))
      = cost (products ?st) k + sum_list (map (cost (products ?st)) (remove1 k (selectedProducts ?st)))"
    by (rule sum_list_map_remove1 [OF kin])
  moreover have "remove1 k (selectedProducts ?st) = removeAll k (selectedProducts ?st)"
    by (rule distinct_remove1_removeAll [OF dist])
  moreover have "cost (products ?st) k = n" using p n by (simp add: cost_def product_cost_def)
  ultimately have "jadd (calculateTotalPoints ?s1) (points p) = calculateTotalPoints ?st"
    using total_num [OF b] total_num [OF b1'] cost_eq n by (simp add: set_delete_def)
  with b have le: "jle (jadd (calculateTotalPoints (snd (refresh ?s1))) (points p))
                       (availablePoints (snd (refresh ?s1)))"
    by (simp add: total_refresh refresh_core budget_ok_def)
  have look1: "map_of (products (snd (refresh ?s1))) k = Some (p\<lparr>selected := False\<rparr>)"
    by (simp add: refresh_core update_conv')
  have restored:
    "AList.update k (p\<lparr>selected := True\<rparr>) (AList.update k (p\<lparr>selected := False\<rparr>) (products ?st))
      = products ?st"
    using p sel by (simp add: update_triv)
  have "run [Toggle k, Toggle k] ?st = snd (toggleProductSelection k (snd (refresh ?s1)))"
    by (simp add: run_two t1)
  then have sel2: "selectedProducts (run [Toggle k, Toggle k] ?st)
        = set_add k (set_delete k (selectedProducts ?st))"
    and prod2: "products (run [Toggle k, Toggle k] ?st) = products ?st"
    using look1 le restored by (simp_all add: toggleProductSelection_def Let_def refresh_core)
  from sel2 kin have "set (selectedProducts (run [Toggle k, Toggle k] ?st)) = set (selectedProducts ?st)"
    by (auto simp: set_add_def set_delete_def)
  with prod2 show ?thesis by simp
qed

theorem toggle_twice_restores_witness:
  "nonneg_costs (products (snd (init page_AB)))
   \<and> map_of (products (run [Toggle (Some (js ''A''))] (snd (init page_AB)))) (Some (js ''A''))
       = Some \<lparr>id_of = Some (js ''A''), points = Num 3000, selected = True\<rparr>
   \<and> set (selectedProducts
        (run [Toggle (Some (js ''A'')), Toggle (Some (js ''A''))] (run [Toggle (Some (js ''A''))] (snd (init page_AB)))))
       = set (selectedProducts (run [Toggle (Some (js ''A''))] (snd (init page_AB))))
   \<and> products
        (run [Toggle (Some (js ''A'')), Toggle (Some (js ''A''))] (run [Toggle (Some (js ''A''))] (snd (init page_AB))))
       = products (run [Toggle (Some (js ''A''))] (snd (init page_AB)))"
proof -
  have h: "nonneg_costs (products (snd (init page_AB)))" by code_simp
  have p: "map_of (products (run [Toggle (Some (js ''A''))] (snd (init page_AB)))) (Some (js ''A''))
       = Some \<lparr>id_of = Some (js ''A''), points = Num 3000, selected = True\<rparr>" by code_simp
  have s: "selected \<lparr>id_of = Some (js ''A''), points = Num 3000, selected = True\<rparr>" by simp
  from toggle_twice_restores [OF h p s] h p show ?thesis by simp
qed

text \<open>
  The hypothesis on the costs is used. On the page with A (5000), N (-3000) and
  B (5000), which is outside the data model, selecting A, N and B and deselecting N
  reaches a state where A and B are selected with a total of 10000. Toggling A twice
  there deselects A and then rejects its selection, since 5000 + 5000 exceeds 7000.
\<close>

lemma negative_cost_breaks_round_trip:
  "map_of (products
       (run [Toggle (Some (js ''A'')), Toggle (Some (js ''N'')), Toggle (Some (js ''B'')), Toggle (Some (js ''N''))]
          (snd (init page_negative)))) (Some (js ''A''))
     = Some \<lparr>id_of = Some (js ''A''), points = Num 5000, selected = True\<rparr>
   \<and> selectedProducts
       (run [Toggle (Some (js ''A'')), Toggle (Some (js ''N'')), Toggle (Some (js ''B'')), Toggle (Some (js ''N''))]
          (snd (init page_negative))) = [Some (js ''A''), Some (js ''B'')]
   \<and> selectedProducts
       (run [Toggle (Some (js ''A'')), Toggle (Some (js ''A''))]
          (run [Toggle (Some (js ''A'')), Toggle (Some (js ''N'')), Toggle (Some (js ''B'')), Toggle (Some (js ''N''))]
             (snd (init page_negative)))) = [Some (js ''B'')]
   \<and> map_of (products
       (run [Toggle (Some (js ''A'')), Toggle (Some (js ''A''))]
          (run [Toggle (Some (js ''A'')), Toggle (Some (js ''N'')), Toggle (Some (js ''B'')), Toggle (Some (js ''N''))]
             (snd (init page_negative))))) (Some (js ''A''))
     = Some \<lparr>id_of = Some (js ''A''), points = Num 5000, selected = False\<rparr>"
  by code_simp

subsection \<open>C10: the budget never grows\<close>

text \<open>
  Claim C10: no event, in any sequence of toggles, confirmations and completed
  exchanges, increases \<open>availablePoints\<close>, and it is never above its initial value of
  7000.
\<close>

theorem availablePoints_never_increases:
  "jle (availablePoints (step e (run es (snd (init doc)))))
       (availablePoints (run es (snd (init doc))))
   \<and> jle (availablePoints (run es (snd (init doc)))) (Num 7000)"
proof -
  have "wf (run (es @ [e]) (snd (init doc)))" by (rule wf_reachable)
  then have "availablePoints (step e (run es (snd (init doc)))) = Num 7000"
    by (simp add: run_snoc wf_def)
  moreover have "availablePoints (run es (snd (init doc))) = Num 7000"
    using wf_reachable [of es doc] by (simp add: wf_def)
  ultimately show ?thesis by simp
qed

end
